theory Spec2Isabelle
  imports Main "HOL-Library.AList" "HOL-Library.Word"
begin

section \<open>Python values\<close>

text \<open>
  A Python \<^verbatim>\<open>str\<close> is a sequence of code points, so slicing (\<^verbatim>\<open>s[:50]\<close>) counts code
  points. Field names of dictionaries are the ASCII identifiers of the source and are
  kept as HOL strings.
\<close>

type_synonym str = "nat list"

definition ascii :: "string \<Rightarrow> str" where
  "ascii cs = map of_char cs"

text \<open>
  The values a field of a user document or of a response holds: \<^verbatim>\<open>None\<close>, a boolean, a
  string, or a \<^verbatim>\<open>bson.objectid.ObjectId\<close> (twelve bytes).
\<close>

datatype val = VNone | VBool bool | VStr str | VOid "96 word"

text \<open>Truth value of a Python object, as \<^verbatim>\<open>not x\<close> and \<^verbatim>\<open>if x\<close> take it.\<close>

fun truthy :: "val \<Rightarrow> bool" where
  "truthy VNone = False"
| "truthy (VBool b) = b"
| "truthy (VStr s) = (s \<noteq> [])"
| "truthy (VOid w) = True"

definition hex_digit :: "nat \<Rightarrow> nat" where
  "hex_digit k = (if k < 10 then 48 + k else 87 + k)"

fun hex_digits :: "nat \<Rightarrow> nat \<Rightarrow> str" where
  "hex_digits 0 n = []"
| "hex_digits (Suc k) n = hex_digits k (n div 16) @ [hex_digit (n mod 16)]"

text \<open>\<^verbatim>\<open>str(ObjectId)\<close> is the 24 lowercase hexadecimal digits of the twelve bytes.\<close>

definition oid_str :: "96 word \<Rightarrow> str" where
  "oid_str w = hex_digits 24 (unat w)"

text \<open>The builtin \<^verbatim>\<open>str(x)\<close>.\<close>

fun py_str :: "val \<Rightarrow> str" where
  "py_str VNone = ascii ''None''"
| "py_str (VBool b) = (if b then ascii ''True'' else ascii ''False'')"
| "py_str (VStr s) = s"
| "py_str (VOid w) = oid_str w"

text \<open>
  A \<^verbatim>\<open>dict\<close> is an association list in insertion order; \<^verbatim>\<open>d[k] = v\<close> is
  \<^const>\<open>AList.update\<close>, which replaces the value of a key in place and appends a new key
  at the end.
\<close>

type_synonym document = "(string \<times> val) list"

text \<open>\<^verbatim>\<open>d.get(k, default)\<close>: never raises.\<close>

definition dict_get :: "document \<Rightarrow> string \<Rightarrow> val \<Rightarrow> val" where
  "dict_get d k dflt = (case map_of d k of None \<Rightarrow> dflt | Some v \<Rightarrow> v)"

text \<open>
  What a handler raises: an \<^verbatim>\<open>HTTPException(status_code, detail)\<close>, or any other exception
  \<open>e\<close>, kept as \<^verbatim>\<open>str(e)\<close>. An exception that leaves a handler is the handler's result
  \<open>Inl\<close>.
\<close>

datatype exn = HTTPException nat str | Exception str

text \<open>\<^verbatim>\<open>d[k]\<close>: raises \<^verbatim>\<open>KeyError(k)\<close> on a missing key, whose \<^verbatim>\<open>str\<close> is the quoted key.\<close>

definition getitem :: "document \<Rightarrow> string \<Rightarrow> exn + val" where
  "getitem d k =
     (case map_of d k of
        None \<Rightarrow> Inl (Exception (39 # ascii k @ [39]))
      | Some v \<Rightarrow> Inr v)"

definition bind_exn :: "exn + 'a \<Rightarrow> ('a \<Rightarrow> exn + 'b) \<Rightarrow> exn + 'b" where
  "bind_exn r f = (case r of Inl e \<Rightarrow> Inl e | Inr x \<Rightarrow> f x)"

text \<open>A JSON response body: a value, an object or an array.\<close>

datatype body = Val val | Obj "(string \<times> body) list" | Arr "body list"

type_synonym response = "(string \<times> body) list"

text \<open>All field names of a body, at any depth.\<close>

fun field_names :: "body \<Rightarrow> string list" where
  "field_names (Val v) = []"
| "field_names (Obj kvs) = concat (map (\<lambda>(k, b). k # field_names b) kvs)"
| "field_names (Arr bs) = concat (map field_names bs)"

text \<open>
  The status a client sees: 200 for a returned body, the code of an
  \<^verbatim>\<open>HTTPException\<close>, 500 for any other exception.
\<close>

fun status_code :: "exn + body \<Rightarrow> nat" where
  "status_code (Inr b) = 200"
| "status_code (Inl (HTTPException code detail)) = code"
| "status_code (Inl (Exception e)) = 500"

section \<open>Library functions\<close>

text \<open>
  The handlers call three functions that live outside the repository: \<^verbatim>\<open>str.lower\<close>
  (the Unicode case tables), and \<^verbatim>\<open>hash\<close> and \<^verbatim>\<open>verify\<close> of
  \<^verbatim>\<open>pwd_context = CryptContext(schemes=["bcrypt"], deprecated="auto")\<close>. They are
  parameters of the model. \<open>pwd_hash\<close> takes the salt it draws as its first argument;
  \<open>pwd_verify\<close> takes the plaintext and whatever value the document holds as hash, and
  either returns a boolean or raises (\<open>Inl\<close>, with \<^verbatim>\<open>str(e)\<close>).
\<close>

record runtime =
  lower :: "str \<Rightarrow> str"
  pwd_hash :: "str \<Rightarrow> str \<Rightarrow> str"
  pwd_verify :: "str \<Rightarrow> val \<Rightarrow> str + bool"

section \<open>The database\<close>

text \<open>
  The module-level handle \<^verbatim>\<open>db\<close> (or \<^verbatim>\<open>None\<close>): its \<^verbatim>\<open>name\<close> attribute (absent, a
  value, or raising when read), the outcome of \<^verbatim>\<open>list_collection_names()\<close> (a list or an
  exception, by its \<^verbatim>\<open>str\<close>), the documents of each collection in insertion order, and
  the next identifier the store hands out.
\<close>

record database =
  name_attr :: "str + str option"
  list_collection_names :: "str + str list"
  collections :: "string \<Rightarrow> document list"
  next_id :: "96 word"

text \<open>
  \<^verbatim>\<open>collection.find_one(filter)\<close>: the first document whose fields equal the filter's, or
  \<^verbatim>\<open>None\<close>.
\<close>

definition find_one :: "document list \<Rightarrow> document \<Rightarrow> document option" where
  "find_one docs flt = List.find (\<lambda>d. list_all (\<lambda>(k, v). map_of d k = Some v) flt) docs"

text \<open>Truth value of the result of \<open>find_one\<close>: \<^verbatim>\<open>None\<close> and the empty dict are false.\<close>

fun truthy_doc :: "document option \<Rightarrow> bool" where
  "truthy_doc None = False"
| "truthy_doc (Some d) = (d \<noteq> [])"

text \<open>
  Modelled from the spec: \<^verbatim>\<open>create_document\<close> of the module \<^verbatim>\<open>database\<close>, which is not
  among the sources. The spec (User Store, \<^verbatim>\<open>insert(user_document) -> generated_id\<close>):
  inserts a new user record and returns its generated unique identifier; no uniqueness
  is enforced at this layer. The identifier is stored under \<^verbatim>\<open>_id\<close>, the field
  \<^verbatim>\<open>login_user\<close> reads.
\<close>

definition create_document :: "database \<Rightarrow> string \<Rightarrow> document \<Rightarrow> val \<times> database" where
  "create_document d collection_name data =
     (let generated_id = VOid (next_id d)
      in (generated_id,
          d\<lparr>collections := (collections d)
                (collection_name := collections d collection_name
                                     @ [AList.update ''_id'' generated_id data]),
            next_id := next_id d + 1\<rparr>))"

section \<open>Requests\<close>

text \<open>
  The request models, after validation by the framework (a payload that fails validation
  never reaches a handler).
\<close>

record RegisterRequest =
  name :: str
  email :: str
  password :: str
  phone :: "str option"
  city :: "str option"
  blood_group :: "str option"

record LoginRequest =
  email :: str
  password :: str

text \<open>An \<^verbatim>\<open>Optional[str]\<close> field as a value.\<close>

fun opt_val :: "str option \<Rightarrow> val" where
  "opt_val None = VNone"
| "opt_val (Some s) = VStr s"

section \<open>Handlers\<close>

subsection \<open>\<^verbatim>\<open>GET /\<close>\<close>

definition read_root :: "exn + body" where
  "read_root = Inr (Obj [(''message'', Val (VStr (ascii ''Blood Bank API is running'')))])"

subsection \<open>\<^verbatim>\<open>GET /test\<close>\<close>

text \<open>
  The handler assigns to the keys of one dictionary inside two nested \<^verbatim>\<open>try\<close> blocks. A
  statement takes the dictionary and returns it updated, with \<open>Inl\<close> when it raised: what
  was assigned before the exception stays assigned.
\<close>

type_synonym stmt = "response \<Rightarrow> (str + unit) \<times> response"

definition setitem :: "string \<Rightarrow> str + body \<Rightarrow> stmt" where
  "setitem k rhs response =
     (case rhs of
        Inl e \<Rightarrow> (Inl e, response)
      | Inr v \<Rightarrow> (Inr (), AList.update k v response))"

definition seq :: "stmt \<Rightarrow> stmt \<Rightarrow> stmt" where
  "seq s1 s2 response =
     (case s1 response of
        (Inl e, response') \<Rightarrow> (Inl e, response')
      | (Inr u, response') \<Rightarrow> s2 response')"

definition try_except :: "stmt \<Rightarrow> (str \<Rightarrow> stmt) \<Rightarrow> stmt" where
  "try_except s handler response =
     (case s response of
        (Inl e, response') \<Rightarrow> handler e response'
      | (Inr u, response') \<Rightarrow> (Inr u, response'))"

definition text_val :: "str \<Rightarrow> str + body" where
  "text_val s = Inr (Val (VStr s))"

text \<open>The pictograms of the status strings, by code point.\<close>

definition check_mark :: str where "check_mark = [9989]"
definition cross_mark :: str where "cross_mark = [10060]"
definition warning_sign :: str where "warning_sign = [9888, 65039]"

text \<open>
  \<open>database_url\<close> is \<^verbatim>\<open>os.getenv("DATABASE_URL")\<close>.
\<close>

definition test_database :: "database option \<Rightarrow> str option \<Rightarrow> exn + body" where
  "test_database db database_url =
     (let response =
            [(''backend'', Val (VStr (check_mark @ ascii '' Running''))),
             (''database'', Val (VStr (cross_mark @ ascii '' Not Available''))),
             (''database_url'', Val VNone),
             (''database_name'', Val VNone),
             (''connection_status'', Val (VStr (ascii ''Not Connected''))),
             (''collections'', Arr [])];
          body_of_try =
            (case db of
               Some d \<Rightarrow>
                 seq (setitem ''database'' (text_val (check_mark @ ascii '' Available'')))
                (seq (setitem ''database_url''
                        (text_val (if truthy (opt_val database_url)
                                   then check_mark @ ascii '' Set''
                                   else cross_mark @ ascii '' Not Set'')))
                (seq (setitem ''database_name''
                        (case name_attr d of
                           Inl e \<Rightarrow> Inl e
                         | Inr (Some n) \<Rightarrow> text_val n
                         | Inr None \<Rightarrow> text_val (check_mark @ ascii '' Connected'')))
                (seq (setitem ''connection_status'' (text_val (ascii ''Connected'')))
                     (try_except
                        (\<lambda>r. case list_collection_names d of
                                Inl e \<Rightarrow> (Inl e, r)
                              | Inr names \<Rightarrow>
                                  seq (setitem ''collections''
                                         (Inr (Arr (map (\<lambda>c. Val (VStr c)) (take 10 names)))))
                                      (setitem ''database''
                                         (text_val (check_mark @ ascii '' Connected & Working'')))
                                      r)
                        (\<lambda>e. setitem ''database''
                                (text_val (warning_sign @ ascii '' Connected but Error: ''
                                           @ take 50 e)))))))
             | None \<Rightarrow>
                 setitem ''database''
                   (text_val (warning_sign @ ascii '' Available but not initialized'')))
      in case try_except body_of_try
                (\<lambda>e. setitem ''database'' (text_val (cross_mark @ ascii '' Error: '' @ take 50 e)))
                response of
           (Inl e, response') \<Rightarrow> Inl (Exception e)
         | (Inr u, response') \<Rightarrow> Inr (Obj response'))"

subsection \<open>\<^verbatim>\<open>POST /auth/register\<close>\<close>

text \<open>
  The handler returns its result and the database after it. \<open>salt\<close> is the salt that
  \<^verbatim>\<open>pwd_context.hash\<close> draws.
\<close>

definition register_user ::
  "runtime \<Rightarrow> database option \<Rightarrow> str \<Rightarrow> RegisterRequest \<Rightarrow> (exn + body) \<times> database option" where
  "register_user rt db salt payload =
     (case db of
        None \<Rightarrow> (Inl (HTTPException 500 (ascii ''Database not configured'')), db)
      | Some d \<Rightarrow>
          let existing = find_one (collections d ''blooduser'')
                           [(''email'', VStr (lower rt (RegisterRequest.email payload)))]
          in if truthy_doc existing
             then (Inl (HTTPException 400 (ascii ''Email already registered'')), db)
             else
               let password_hash = pwd_hash rt salt (RegisterRequest.password payload);
                   document =
                     [(''name'', VStr (name payload)),
                      (''email'', VStr (lower rt (RegisterRequest.email payload))),
                      (''phone'', opt_val (phone payload)),
                      (''city'', opt_val (city payload)),
                      (''blood_group'', opt_val (blood_group payload)),
                      (''role'', VStr (ascii ''user'')),
                      (''password_hash'', VStr password_hash),
                      (''is_active'', VBool True)];
                   (inserted_id, d') = create_document d ''blooduser'' document
               in (bind_exn (getitem document ''name'') (\<lambda>v_name.
                   bind_exn (getitem document ''email'') (\<lambda>v_email.
                   bind_exn (getitem document ''city'') (\<lambda>v_city.
                   bind_exn (getitem document ''blood_group'') (\<lambda>v_blood_group.
                     Inr (Obj [(''status'', Val (VStr (ascii ''success''))),
                               (''message'', Val (VStr (ascii ''Registration successful''))),
                               (''user'', Obj [(''id'', Val inserted_id),
                                               (''name'', Val v_name),
                                               (''email'', Val v_email),
                                               (''city'', Val v_city),
                                               (''blood_group'', Val v_blood_group)])]))))),
                   Some d'))"

subsection \<open>\<^verbatim>\<open>POST /auth/login\<close>\<close>

definition login_user :: "runtime \<Rightarrow> database option \<Rightarrow> LoginRequest \<Rightarrow> exn + body" where
  "login_user rt db payload =
     (case db of
        None \<Rightarrow> Inl (HTTPException 500 (ascii ''Database not configured''))
      | Some d \<Rightarrow>
          (case find_one (collections d ''blooduser'')
                  [(''email'', VStr (lower rt (email payload)))] of
             None \<Rightarrow> Inl (HTTPException 401 (ascii ''Invalid email or password''))
           | Some user \<Rightarrow>
               if \<not> truthy_doc (Some user)
               then Inl (HTTPException 401 (ascii ''Invalid email or password''))
               else
                 (case pwd_verify rt (password payload)
                         (dict_get user ''password_hash'' (VStr [])) of
                    Inl e \<Rightarrow> Inl (Exception e)
                  | Inr ok \<Rightarrow>
                      if \<not> ok
                      then Inl (HTTPException 401 (ascii ''Invalid email or password''))
                      else if \<not> truthy (dict_get user ''is_active'' (VBool True))
                      then Inl (HTTPException 403 (ascii ''Account is inactive''))
                      else
                        Inr (Obj [(''status'', Val (VStr (ascii ''success''))),
                                  (''message'', Val (VStr (ascii ''Login successful''))),
                                  (''user'',
                                   Obj [(''id'', Val (VStr (py_str (dict_get user ''_id'' VNone)))),
                                        (''name'', Val (dict_get user ''name'' VNone)),
                                        (''email'', Val (dict_get user ''email'' VNone)),
                                        (''city'', Val (dict_get user ''city'' VNone)),
                                        (''blood_group'',
                                         Val (dict_get user ''blood_group'' VNone))])]))))"

section \<open>An instance for evaluation\<close>

text \<open>
  Concrete library functions, a concrete store and concrete documents, on which the
  handlers are evaluated. \<open>example_lower\<close> lowers the ASCII letters. \<open>example_verify\<close>
  follows the documented interface of \<^verbatim>\<open>CryptContext.verify\<close>: \<^verbatim>\<open>None\<close> as hash gives
  \<^verbatim>\<open>False\<close>, a string that is no hash of a configured scheme raises a \<^verbatim>\<open>ValueError\<close>, a
  value that is no string raises a \<^verbatim>\<open>TypeError\<close>.
\<close>

definition example_lower :: "str \<Rightarrow> str" where
  "example_lower s = map (\<lambda>c. if 65 \<le> c \<and> c \<le> 90 then c + 32 else c) s"

definition example_hash :: "str \<Rightarrow> str \<Rightarrow> str" where
  "example_hash salt secret = ascii ''$2b$'' @ take 2 (salt @ [46, 46]) @ rev secret"

definition example_verify :: "str \<Rightarrow> val \<Rightarrow> str + bool" where
  "example_verify secret h =
     (case h of
        VNone \<Rightarrow> Inr False
      | VStr s \<Rightarrow>
          if take 4 s = ascii ''$2b$'' then Inr (rev (drop 6 s) = secret)
          else Inl (ascii ''hash could not be identified'')
      | _ \<Rightarrow> Inl (ascii ''hash must be unicode or bytes''))"

definition example_runtime :: runtime where
  "example_runtime =
     \<lparr>lower = example_lower, pwd_hash = example_hash, pwd_verify = example_verify\<rparr>"

definition example_db :: "document list \<Rightarrow> database" where
  "example_db docs =
     \<lparr>name_attr = Inr (Some (ascii ''bloodbank'')),
      list_collection_names = Inr [ascii ''blooduser''],
      collections = (\<lambda>c. if c = ''blooduser'' then docs else []),
      next_id = word_of_nat (length docs)\<rparr>"

definition alice_doc :: document where
  "alice_doc =
     [(''name'', VStr (ascii ''Alice'')), (''email'', VStr (ascii ''alice@test.com'')),
      (''phone'', VNone), (''city'', VNone), (''blood_group'', VNone),
      (''role'', VStr (ascii ''user'')),
      (''password_hash'', VStr (example_hash (ascii ''ab'') (ascii ''secret1''))),
      (''is_active'', VBool True), (''_id'', VOid 0)]"

definition alice_login :: "str \<Rightarrow> LoginRequest" where
  "alice_login pw = \<lparr>email = ascii ''Alice@Test.com'', password = pw\<rparr>"

definition inactive_doc :: document where
  "inactive_doc = AList.update ''is_active'' (VBool False) alice_doc"

definition no_flag_doc :: document where
  "no_flag_doc = AList.delete ''is_active'' alice_doc"

definition no_hash_doc :: document where
  "no_hash_doc = AList.delete ''password_hash'' alice_doc"

text \<open>
  A verifier that, as bcrypt does, refuses a plaintext containing the NUL character by
  raising a \<^verbatim>\<open>ValueError\<close>, and the instance with it.
\<close>

definition strict_verify :: "str \<Rightarrow> val \<Rightarrow> str + bool" where
  "strict_verify secret h =
     (case h of
        VStr s \<Rightarrow>
          if take 4 s = ascii ''$2b$'' \<and> 0 \<in> set secret
          then Inl (ascii ''secret contains a NUL character'')
          else example_verify secret h
      | _ \<Rightarrow> example_verify secret h)"

definition strict_runtime :: runtime where
  "strict_runtime = example_runtime\<lparr>pwd_verify := strict_verify\<rparr>"

section \<open>Sequences of requests and helpers for stating properties\<close>

text \<open>
  The database after a sequence of calls of the registration handler, each with the salt
  its hashing draws.
\<close>

fun run_registrations ::
  "runtime \<Rightarrow> database option \<Rightarrow> (str \<times> RegisterRequest) list \<Rightarrow> database option" where
  "run_registrations rt db [] = db"
| "run_registrations rt db ((salt, payload) # reqs) =
     run_registrations rt (snd (register_user rt db salt payload)) reqs"

text \<open>The dictionary \<^verbatim>\<open>document\<close> that \<^verbatim>\<open>register_user\<close> builds and passes to the store.\<close>

definition new_document :: "runtime \<Rightarrow> str \<Rightarrow> RegisterRequest \<Rightarrow> document" where
  "new_document rt salt payload =
     [(''name'', VStr (name payload)),
      (''email'', VStr (lower rt (RegisterRequest.email payload))),
      (''phone'', opt_val (phone payload)),
      (''city'', opt_val (city payload)),
      (''blood_group'', opt_val (blood_group payload)),
      (''role'', VStr (ascii ''user'')),
      (''password_hash'', VStr (pwd_hash rt salt (RegisterRequest.password payload))),
      (''is_active'', VBool True)]"

text \<open>A field of the object under \<^verbatim>\<open>user\<close> of a response body.\<close>

definition user_field :: "body \<Rightarrow> string \<Rightarrow> body option" where
  "user_field b k =
     (case b of
        Obj kvs \<Rightarrow> (case map_of kvs ''user'' of Some (Obj u) \<Rightarrow> map_of u k | _ \<Rightarrow> None)
      | _ \<Rightarrow> None)"

text \<open>Registration requests for evaluation, and the body the first one is answered with.\<close>

definition alice_payload :: RegisterRequest where
  "alice_payload =
     \<lparr>name = ascii ''Alice'', email = ascii ''Alice@Test.com'', password = ascii ''secret1'',
      phone = None, city = None, blood_group = None\<rparr>"

definition bob_payload :: RegisterRequest where
  "bob_payload =
     \<lparr>name = ascii ''Bob'', email = ascii ''bob@test.com'', password = ascii ''hunter22'',
      phone = Some (ascii ''555''), city = Some (ascii ''Pune''), blood_group = Some (ascii ''O+'')\<rparr>"

definition alice_registered :: body where
  "alice_registered =
     Obj [(''status'', Val (VStr (ascii ''success''))),
          (''message'', Val (VStr (ascii ''Registration successful''))),
          (''user'', Obj [(''id'', Val (VOid 0)),
                          (''name'', Val (VStr (ascii ''Alice''))),
                          (''email'', Val (VStr (ascii ''alice@test.com''))),
                          (''city'', Val VNone),
                          (''blood_group'', Val VNone)])]"

text \<open>
  A document and a database without the stored password hashes: what two stores that
  differ only in hashes have in common.
\<close>

definition redact :: "document \<Rightarrow> document" where
  "redact u = AList.delete ''password_hash'' u"

definition redact_db :: "database \<Rightarrow> database" where
  "redact_db d = d\<lparr>collections := (\<lambda>c. map redact (collections d c))\<rparr>"

text \<open>The stored document of the instance with the hash of another password.\<close>

definition other_hash_doc :: document where
  "other_hash_doc =
     AList.update ''password_hash'' (VStr (example_hash (ascii ''zz'') (ascii ''other99'')))
       alice_doc"

text \<open>
  A database whose listing of collections raises an exception with a message of 60
  characters, and a listing of twelve collection names.
\<close>

definition failing_db :: database where
  "failing_db = (example_db [])\<lparr>list_collection_names := Inl (replicate 60 120)\<rparr>"

definition many_names :: "str list" where
  "many_names = map (\<lambda>i. [97 + i]) [0..<12]"

section \<open>Lookups in the store\<close>

lemma find_one_None_iff:
  "find_one docs [(k, v)] = None \<longleftrightarrow> (\<forall>d\<in>set docs. map_of d k \<noteq> Some v)"
  by (auto simp: find_one_def find_None_iff)

lemma find_one_SomeD:
  "find_one docs [(k, v)] = Some u \<Longrightarrow> u \<in> set docs \<and> map_of u k = Some v"
  by (auto simp: find_one_def find_Some_iff)

lemma find_one_nonempty: "find_one docs [(k, v)] = Some u \<Longrightarrow> u \<noteq> []"
  by (auto dest: find_one_SomeD)

lemma find_one_append_Some:
  "find_one docs flt = Some u \<Longrightarrow> find_one (docs @ rest) flt = Some u"
  unfolding find_one_def by (induction docs) (auto split: if_splits)

lemma find_one_append_None:
  "find_one docs flt = None \<Longrightarrow> find_one (docs @ rest) flt = find_one rest flt"
  unfolding find_one_def by (induction docs) (auto split: if_splits)

lemma find_one_unique:
  assumes "u \<in> set docs" and "map_of u k = Some v"
    and "\<forall>u'\<in>set docs. map_of u' k = Some v \<longrightarrow> u' = u"
  shows "find_one docs [(k, v)] = Some u"
proof (cases "find_one docs [(k, v)]")
  case None
  then show ?thesis using assms(1,2) by (simp add: find_one_None_iff)
next
  case (Some w)
  then show ?thesis using assms(3) find_one_SomeD[OF Some] by auto
qed

section \<open>Login\<close>

lemma login_user_found:
  assumes "find_one (collections d ''blooduser'')
             [(''email'', VStr (lower rt (email payload)))] = Some user"
  shows "login_user rt (Some d) payload =
     (case pwd_verify rt (password payload) (dict_get user ''password_hash'' (VStr [])) of
        Inl e \<Rightarrow> Inl (Exception e)
      | Inr ok \<Rightarrow>
          if \<not> ok then Inl (HTTPException 401 (ascii ''Invalid email or password''))
          else if \<not> truthy (dict_get user ''is_active'' (VBool True))
          then Inl (HTTPException 403 (ascii ''Account is inactive''))
          else Inr (Obj [(''status'', Val (VStr (ascii ''success''))),
                         (''message'', Val (VStr (ascii ''Login successful''))),
                         (''user'',
                          Obj [(''id'', Val (VStr (py_str (dict_get user ''_id'' VNone)))),
                               (''name'', Val (dict_get user ''name'' VNone)),
                               (''email'', Val (dict_get user ''email'' VNone)),
                               (''city'', Val (dict_get user ''city'' VNone)),
                               (''blood_group'', Val (dict_get user ''blood_group'' VNone))])]))"
  using assms find_one_nonempty[OF assms] by (simp add: login_user_def)

lemma login_user_not_found:
  assumes "find_one (collections d ''blooduser'')
             [(''email'', VStr (lower rt (email payload)))] = None"
  shows "login_user rt (Some d) payload =
           Inl (HTTPException 401 (ascii ''Invalid email or password''))"
  using assms by (simp add: login_user_def)

lemma example_lower_alice: "example_lower (ascii ''Alice@Test.com'') = ascii ''alice@test.com''"
  by (simp add: example_lower_def ascii_def)

lemma example_verify_alice:
  "example_verify pw (VStr (example_hash (ascii ''ab'') (ascii ''secret1'')))
     = Inr (ascii ''secret1'' = pw)"
  by (auto simp: example_verify_def example_hash_def ascii_def)

text \<open>
  When verification returns \<^verbatim>\<open>False\<close>, a login for a stored email fails exactly as a login
  for an email that matches no stored user: status 401 and the detail
  \<^verbatim>\<open>Invalid email or password\<close>.
\<close>

lemma login_failures_same_when_verify_returns:
  assumes unknown: "\<forall>u\<in>set (collections d ''blooduser'').
                      map_of u ''email'' \<noteq> Some (VStr (lower rt (email p1)))"
    and known: "\<exists>u\<in>set (collections d ''blooduser'').
                      map_of u ''email'' = Some (VStr (lower rt (email p2)))"
    and wrong: "\<forall>u\<in>set (collections d ''blooduser'').
                  map_of u ''email'' = Some (VStr (lower rt (email p2))) \<longrightarrow>
                  pwd_verify rt (password p2) (dict_get u ''password_hash'' (VStr []))
                    = Inr False"
  shows "login_user rt (Some d) p1 = Inl (HTTPException 401 (ascii ''Invalid email or password''))
       \<and> login_user rt (Some d) p2 = login_user rt (Some d) p1
       \<and> status_code (login_user rt (Some d) p1) = 401
       \<and> status_code (login_user rt (Some d) p2) = 401"
proof -
  have "find_one (collections d ''blooduser'') [(''email'', VStr (lower rt (email p1)))] = None"
    using unknown by (simp add: find_one_None_iff)
  then have r1: "login_user rt (Some d) p1
                   = Inl (HTTPException 401 (ascii ''Invalid email or password''))"
    by (rule login_user_not_found)
  obtain u where u: "find_one (collections d ''blooduser'')
                       [(''email'', VStr (lower rt (email p2)))] = Some u"
    using known
    by (cases "find_one (collections d ''blooduser'') [(''email'', VStr (lower rt (email p2)))]")
       (auto simp: find_one_None_iff)
  have "pwd_verify rt (password p2) (dict_get u ''password_hash'' (VStr [])) = Inr False"
    using wrong find_one_SomeD[OF u] by blast
  then have r2: "login_user rt (Some d) p2
                   = Inl (HTTPException 401 (ascii ''Invalid email or password''))"
    by (simp add: login_user_found[OF u])
  show ?thesis by (simp add: r1 r2)
qed

text \<open>
  C3. The two login failures are told apart when verification raises. For an email that
  matches no stored user the handler returns 401 \<^verbatim>\<open>Invalid email or password\<close> without
  calling \<^verbatim>\<open>pwd_context.verify\<close>; for an email that matches a stored user it calls
  \<^verbatim>\<open>verify\<close> outside any \<^verbatim>\<open>try\<close>, so a password on which \<^verbatim>\<open>verify\<close> raises leaves the
  handler as an exception (status 500). The two responses differ and show that the email
  exists.
\<close>

theorem login_verify_exception_reveals_email:
  assumes unknown: "\<forall>u\<in>set (collections d ''blooduser'').
                      map_of u ''email'' \<noteq> Some (VStr (lower rt (email p1)))"
    and known: "\<exists>u\<in>set (collections d ''blooduser'').
                      map_of u ''email'' = Some (VStr (lower rt (email p2)))"
    and raises: "\<forall>u\<in>set (collections d ''blooduser'').
                  map_of u ''email'' = Some (VStr (lower rt (email p2))) \<longrightarrow>
                  pwd_verify rt (password p2) (dict_get u ''password_hash'' (VStr []))
                    = Inl e"
  shows "login_user rt (Some d) p1 = Inl (HTTPException 401 (ascii ''Invalid email or password''))
       \<and> login_user rt (Some d) p2 = Inl (Exception e)
       \<and> status_code (login_user rt (Some d) p1) = 401
       \<and> status_code (login_user rt (Some d) p2) = 500
       \<and> login_user rt (Some d) p2 \<noteq> login_user rt (Some d) p1"
proof -
  have "find_one (collections d ''blooduser'') [(''email'', VStr (lower rt (email p1)))] = None"
    using unknown by (simp add: find_one_None_iff)
  then have r1: "login_user rt (Some d) p1
                   = Inl (HTTPException 401 (ascii ''Invalid email or password''))"
    by (rule login_user_not_found)
  obtain u where u: "find_one (collections d ''blooduser'')
                       [(''email'', VStr (lower rt (email p2)))] = Some u"
    using known
    by (cases "find_one (collections d ''blooduser'') [(''email'', VStr (lower rt (email p2)))]")
       (auto simp: find_one_None_iff)
  have "pwd_verify rt (password p2) (dict_get u ''password_hash'' (VStr [])) = Inl e"
    using raises find_one_SomeD[OF u] by blast
  then have r2: "login_user rt (Some d) p2 = Inl (Exception e)"
    by (simp add: login_user_found[OF u])
  show ?thesis by (simp add: r1 r2)
qed

theorem login_verify_exception_reveals_email_witness:
  "login_user strict_runtime (Some (example_db [alice_doc]))
     \<lparr>email = ascii ''bob@test.com'', password = [97, 0, 98]\<rparr>
     = Inl (HTTPException 401 (ascii ''Invalid email or password''))
   \<and> login_user strict_runtime (Some (example_db [alice_doc])) (alice_login [97, 0, 98])
     = Inl (Exception (ascii ''secret contains a NUL character''))
   \<and> status_code (login_user strict_runtime (Some (example_db [alice_doc]))
                     (alice_login [97, 0, 98])) = 500"
proof -
  have low: "lower strict_runtime (email (alice_login [97, 0, 98])) = ascii ''alice@test.com''"
    by (simp add: strict_runtime_def example_runtime_def alice_login_def example_lower_alice)
  have h1: "\<forall>u\<in>set (collections (example_db [alice_doc]) ''blooduser'').
              map_of u ''email'' \<noteq> Some (VStr (lower strict_runtime
                (email \<lparr>email = ascii ''bob@test.com'', password = [97, 0, 98]\<rparr>)))"
    by (simp add: example_db_def alice_doc_def strict_runtime_def example_runtime_def
        example_lower_def ascii_def)
  have h2: "\<exists>u\<in>set (collections (example_db [alice_doc]) ''blooduser'').
              map_of u ''email'' = Some (VStr (lower strict_runtime
                (email (alice_login [97, 0, 98]))))"
    unfolding low by (simp add: example_db_def alice_doc_def)
  have h3: "\<forall>u\<in>set (collections (example_db [alice_doc]) ''blooduser'').
              map_of u ''email'' = Some (VStr (lower strict_runtime
                (email (alice_login [97, 0, 98])))) \<longrightarrow>
              pwd_verify strict_runtime (password (alice_login [97, 0, 98]))
                (dict_get u ''password_hash'' (VStr []))
                = Inl (ascii ''secret contains a NUL character'')"
    unfolding low
    by (simp add: example_db_def alice_doc_def dict_get_def strict_runtime_def
        alice_login_def strict_verify_def example_hash_def ascii_def)
  show ?thesis
    using login_verify_exception_reveals_email[OF h1 h2 h3] by simp
qed

lemma alice_login_lower:
  "lower example_runtime (email (alice_login pw)) = ascii ''alice@test.com''"
  by (simp add: example_runtime_def alice_login_def example_lower_alice)

lemma example_db_single: "set (collections (example_db [x]) ''blooduser'') = {x}"
  by (simp add: example_db_def)

lemma inactive_doc_fields:
  "map_of inactive_doc ''email'' = Some (VStr (ascii ''alice@test.com''))"
  "map_of inactive_doc ''is_active'' = Some (VBool False)"
  "dict_get inactive_doc ''password_hash'' (VStr [])
     = VStr (example_hash (ascii ''ab'') (ascii ''secret1''))"
  by (simp_all add: inactive_doc_def alice_doc_def dict_get_def)

lemma no_flag_doc_fields:
  "map_of no_flag_doc ''email'' = Some (VStr (ascii ''alice@test.com''))"
  "map_of no_flag_doc ''is_active'' = None"
  "dict_get no_flag_doc ''password_hash'' (VStr [])
     = VStr (example_hash (ascii ''ab'') (ascii ''secret1''))"
  "dict_get no_flag_doc ''_id'' VNone = VOid 0"
  "dict_get no_flag_doc ''name'' VNone = VStr (ascii ''Alice'')"
  "dict_get no_flag_doc ''email'' VNone = VStr (ascii ''alice@test.com'')"
  "dict_get no_flag_doc ''city'' VNone = VNone"
  "dict_get no_flag_doc ''blood_group'' VNone = VNone"
  by (simp_all add: no_flag_doc_def alice_doc_def dict_get_def)

lemma no_hash_doc_fields:
  "map_of no_hash_doc ''email'' = Some (VStr (ascii ''alice@test.com''))"
  "map_of no_hash_doc ''password_hash'' = None"
  by (simp_all add: no_hash_doc_def alice_doc_def)

text \<open>
  C4. The \<^verbatim>\<open>is_active\<close> check comes after password verification: for a stored user whose
  \<^verbatim>\<open>is_active\<close> is false, a login whose password verifies fails with 403
  \<^verbatim>\<open>Account is inactive\<close>, and a login whose password fails verification fails with 401
  \<^verbatim>\<open>Invalid email or password\<close>.
\<close>

theorem login_inactive_after_verification:
  assumes stored: "u \<in> set (collections d ''blooduser'')"
    and email_u: "map_of u ''email'' = Some (VStr (lower rt (email p)))"
    and only: "\<forall>u'\<in>set (collections d ''blooduser'').
                 map_of u' ''email'' = Some (VStr (lower rt (email p))) \<longrightarrow> u' = u"
    and inactive: "map_of u ''is_active'' = Some (VBool False)"
  shows "(pwd_verify rt (password p) (dict_get u ''password_hash'' (VStr [])) = Inr True \<longrightarrow>
            login_user rt (Some d) p = Inl (HTTPException 403 (ascii ''Account is inactive'')))
       \<and> (pwd_verify rt (password p) (dict_get u ''password_hash'' (VStr [])) = Inr False \<longrightarrow>
            login_user rt (Some d) p
              = Inl (HTTPException 401 (ascii ''Invalid email or password'')))"
proof -
  have f: "find_one (collections d ''blooduser'') [(''email'', VStr (lower rt (email p)))] = Some u"
    using stored email_u only by (rule find_one_unique)
  have "dict_get u ''is_active'' (VBool True) = VBool False"
    using inactive by (simp add: dict_get_def)
  then show ?thesis by (simp add: login_user_found[OF f])
qed

theorem login_inactive_after_verification_witness:
  "login_user example_runtime (Some (example_db [inactive_doc])) (alice_login (ascii ''secret1''))
     = Inl (HTTPException 403 (ascii ''Account is inactive''))
   \<and> login_user example_runtime (Some (example_db [inactive_doc])) (alice_login (ascii ''wrong''))
     = Inl (HTTPException 401 (ascii ''Invalid email or password''))"
proof -
  have h1: "inactive_doc \<in> set (collections (example_db [inactive_doc]) ''blooduser'')"
    by (simp add: example_db_single)
  have h2: "map_of inactive_doc ''email''
              = Some (VStr (lower example_runtime (email (alice_login pw))))" for pw
    by (simp add: alice_login_lower inactive_doc_fields)
  have h3: "\<forall>u'\<in>set (collections (example_db [inactive_doc]) ''blooduser'').
              map_of u' ''email'' = Some (VStr (lower example_runtime (email (alice_login pw))))
              \<longrightarrow> u' = inactive_doc" for pw
    by (simp add: example_db_single)
  have v: "pwd_verify example_runtime (password (alice_login pw))
             (dict_get inactive_doc ''password_hash'' (VStr [])) = Inr (ascii ''secret1'' = pw)" for pw
    by (simp add: inactive_doc_fields example_runtime_def alice_login_def example_verify_alice)
  have ne: "ascii ''secret1'' \<noteq> ascii ''wrong''"
    by (simp add: ascii_def)
  show ?thesis
    using login_inactive_after_verification
            [OF h1 h2 h3 inactive_doc_fields(2), of "ascii ''secret1''"]
          login_inactive_after_verification
            [OF h1 h2 h3 inactive_doc_fields(2), of "ascii ''wrong''"]
    by (simp add: v ne)
qed

text \<open>
  C9. A stored user document without the field \<^verbatim>\<open>is_active\<close> is treated as active: a login
  whose password verifies succeeds.
\<close>

theorem login_missing_is_active:
  assumes stored: "u \<in> set (collections d ''blooduser'')"
    and email_u: "map_of u ''email'' = Some (VStr (lower rt (email p)))"
    and only: "\<forall>u'\<in>set (collections d ''blooduser'').
                 map_of u' ''email'' = Some (VStr (lower rt (email p))) \<longrightarrow> u' = u"
    and missing: "map_of u ''is_active'' = None"
    and correct: "pwd_verify rt (password p) (dict_get u ''password_hash'' (VStr [])) = Inr True"
  shows "login_user rt (Some d) p =
           Inr (Obj [(''status'', Val (VStr (ascii ''success''))),
                     (''message'', Val (VStr (ascii ''Login successful''))),
                     (''user'',
                      Obj [(''id'', Val (VStr (py_str (dict_get u ''_id'' VNone)))),
                           (''name'', Val (dict_get u ''name'' VNone)),
                           (''email'', Val (dict_get u ''email'' VNone)),
                           (''city'', Val (dict_get u ''city'' VNone)),
                           (''blood_group'', Val (dict_get u ''blood_group'' VNone))])])
       \<and> status_code (login_user rt (Some d) p) = 200"
proof -
  have f: "find_one (collections d ''blooduser'') [(''email'', VStr (lower rt (email p)))] = Some u"
    using stored email_u only by (rule find_one_unique)
  have "dict_get u ''is_active'' (VBool True) = VBool True"
    using missing by (simp add: dict_get_def)
  then show ?thesis using correct by (simp add: login_user_found[OF f])
qed

theorem login_missing_is_active_witness:
  "login_user example_runtime (Some (example_db [no_flag_doc])) (alice_login (ascii ''secret1''))
     = Inr (Obj [(''status'', Val (VStr (ascii ''success''))),
                 (''message'', Val (VStr (ascii ''Login successful''))),
                 (''user'',
                  Obj [(''id'', Val (VStr (oid_str 0))),
                       (''name'', Val (VStr (ascii ''Alice''))),
                       (''email'', Val (VStr (ascii ''alice@test.com''))),
                       (''city'', Val VNone),
                       (''blood_group'', Val VNone)])])"
proof -
  have h1: "no_flag_doc \<in> set (collections (example_db [no_flag_doc]) ''blooduser'')"
    by (simp add: example_db_single)
  have h2: "map_of no_flag_doc ''email''
              = Some (VStr (lower example_runtime (email (alice_login (ascii ''secret1'')))))"
    by (simp add: alice_login_lower no_flag_doc_fields)
  have h3: "\<forall>u'\<in>set (collections (example_db [no_flag_doc]) ''blooduser'').
              map_of u' ''email''
                = Some (VStr (lower example_runtime (email (alice_login (ascii ''secret1'')))))
              \<longrightarrow> u' = no_flag_doc"
    by (simp add: example_db_single)
  have h5: "pwd_verify example_runtime (password (alice_login (ascii ''secret1'')))
             (dict_get no_flag_doc ''password_hash'' (VStr [])) = Inr True"
    by (simp add: no_flag_doc_fields example_runtime_def alice_login_def example_verify_alice)
  show ?thesis
    using login_missing_is_active[OF h1 h2 h3 no_flag_doc_fields(2) h5]
    by (simp add: no_flag_doc_fields)
qed

text \<open>
  C5. \<^verbatim>\<open>login_user\<close> reads the hash with \<^verbatim>\<open>user.get("password_hash", "")\<close>, which does not
  raise, and calls \<^verbatim>\<open>pwd_context.verify\<close> outside any \<^verbatim>\<open>try\<close>: for a stored user document
  without the field \<^verbatim>\<open>password_hash\<close>, when \<^verbatim>\<open>verify\<close> raises on the empty string, the
  exception leaves the handler (status 500); no 401 is returned.
\<close>

theorem login_verify_exception_unhandled:
  assumes stored: "u \<in> set (collections d ''blooduser'')"
    and email_u: "map_of u ''email'' = Some (VStr (lower rt (email p)))"
    and only: "\<forall>u'\<in>set (collections d ''blooduser'').
                 map_of u' ''email'' = Some (VStr (lower rt (email p))) \<longrightarrow> u' = u"
    and missing: "map_of u ''password_hash'' = None"
    and raises: "pwd_verify rt (password p) (VStr []) = Inl e"
  shows "login_user rt (Some d) p = Inl (Exception e)
       \<and> status_code (login_user rt (Some d) p) = 500"
proof -
  have f: "find_one (collections d ''blooduser'') [(''email'', VStr (lower rt (email p)))] = Some u"
    using stored email_u only by (rule find_one_unique)
  have "dict_get u ''password_hash'' (VStr []) = VStr []"
    using missing by (simp add: dict_get_def)
  then show ?thesis using raises by (simp add: login_user_found[OF f])
qed

theorem login_verify_exception_unhandled_witness:
  "login_user example_runtime (Some (example_db [no_hash_doc])) (alice_login (ascii ''secret1''))
     = Inl (Exception (ascii ''hash could not be identified''))
   \<and> status_code (login_user example_runtime (Some (example_db [no_hash_doc]))
                     (alice_login (ascii ''secret1''))) = 500"
proof -
  have h1: "no_hash_doc \<in> set (collections (example_db [no_hash_doc]) ''blooduser'')"
    by (simp add: example_db_single)
  have h2: "map_of no_hash_doc ''email''
              = Some (VStr (lower example_runtime (email (alice_login (ascii ''secret1'')))))"
    by (simp add: alice_login_lower no_hash_doc_fields)
  have h3: "\<forall>u'\<in>set (collections (example_db [no_hash_doc]) ''blooduser'').
              map_of u' ''email''
                = Some (VStr (lower example_runtime (email (alice_login (ascii ''secret1'')))))
              \<longrightarrow> u' = no_hash_doc"
    by (simp add: example_db_single)
  have h5: "pwd_verify example_runtime (password (alice_login (ascii ''secret1''))) (VStr [])
              = Inl (ascii ''hash could not be identified'')"
    by (simp add: example_runtime_def example_verify_def ascii_def)
  show ?thesis
    by (rule login_verify_exception_unhandled[OF h1 h2 h3 no_hash_doc_fields(2) h5])
qed

section \<open>Registration\<close>

lemma register_user_fresh:
  assumes "find_one (collections d ''blooduser'')
             [(''email'', VStr (lower rt (RegisterRequest.email p)))] = None"
  shows "register_user rt (Some d) salt p =
     (Inr (Obj [(''status'', Val (VStr (ascii ''success''))),
                (''message'', Val (VStr (ascii ''Registration successful''))),
                (''user'', Obj [(''id'', Val (fst (create_document d ''blooduser'' (new_document rt salt p)))),
                                (''name'', Val (VStr (name p))),
                                (''email'', Val (VStr (lower rt (RegisterRequest.email p)))),
                                (''city'', Val (opt_val (city p))),
                                (''blood_group'', Val (opt_val (blood_group p)))])]),
      Some (snd (create_document d ''blooduser'' (new_document rt salt p))))"
  using assms
  by (simp add: register_user_def new_document_def getitem_def bind_exn_def Let_def
      split: prod.splits)

lemma register_user_duplicate:
  assumes "find_one (collections d ''blooduser'')
             [(''email'', VStr (lower rt (RegisterRequest.email p)))] = Some u"
  shows "register_user rt (Some d) salt p =
           (Inl (HTTPException 400 (ascii ''Email already registered'')), Some d)"
  using assms find_one_nonempty[OF assms] by (simp add: register_user_def)

lemma register_user_None:
  "register_user rt None salt p = (Inl (HTTPException 500 (ascii ''Database not configured'')), None)"
  by (simp add: register_user_def)

lemma create_document_blooduser:
  "create_document d ''blooduser'' (new_document rt salt p) =
     (VOid (next_id d),
      d\<lparr>collections := (collections d)
            (''blooduser'' := collections d ''blooduser''
                               @ [new_document rt salt p @ [(''_id'', VOid (next_id d))]]),
        next_id := next_id d + 1\<rparr>)"
  by (simp add: create_document_def new_document_def Let_def)

lemma fst_create_document: "fst (create_document d c data) = VOid (next_id d)"
  by (simp add: create_document_def Let_def)

lemma register_user_step:
  "\<exists>d' rest. snd (register_user rt (Some d) salt p) = Some d'
       \<and> collections d' ''blooduser'' = collections d ''blooduser'' @ rest"
proof (cases "find_one (collections d ''blooduser'')
                [(''email'', VStr (lower rt (RegisterRequest.email p)))]")
  case None
  show ?thesis
    by (simp add: register_user_fresh[OF None] create_document_blooduser)
next
  case (Some u)
  show ?thesis
    by (simp add: register_user_duplicate[OF Some])
qed

lemma run_registrations_prefix:
  "\<exists>d' rest. run_registrations rt (Some d) reqs = Some d'
       \<and> collections d' ''blooduser'' = collections d ''blooduser'' @ rest"
proof (induction reqs arbitrary: d)
  case Nil
  show ?case by simp
next
  case (Cons req reqs)
  obtain salt p where req: "req = (salt, p)" by (cases req)
  obtain d1 rest1 where d1: "snd (register_user rt (Some d) salt p) = Some d1"
    "collections d1 ''blooduser'' = collections d ''blooduser'' @ rest1"
    using register_user_step by blast
  obtain d2 rest2 where d2: "run_registrations rt (Some d1) reqs = Some d2"
    "collections d2 ''blooduser'' = collections d1 ''blooduser'' @ rest2"
    using Cons.IH by blast
  show ?case
    using d1 d2 by (simp add: req)
qed

lemma register_user_success:
  assumes "register_user rt db salt p = (Inr r, db1)"
  obtains d where "db = Some d"
    and "find_one (collections d ''blooduser'')
           [(''email'', VStr (lower rt (RegisterRequest.email p)))] = None"
proof (cases db)
  case None
  then show ?thesis using assms by (simp add: register_user_None)
next
  case (Some d)
  show ?thesis
  proof (cases "find_one (collections d ''blooduser'')
                  [(''email'', VStr (lower rt (RegisterRequest.email p)))]")
    case None
    then show ?thesis using that Some by blast
  next
    case (Some u)
    then show ?thesis using assms \<open>db = Some d\<close> by (simp add: register_user_duplicate)
  qed
qed

text \<open>
  After a successful registration, and any further registrations, the lookup by the
  lowercased email returns the document that registration stored.
\<close>

lemma registered_user_found:
  assumes reg: "register_user rt db salt p = (Inr r, db1)"
    and later: "run_registrations rt db1 reqs = db2"
  obtains d d2 where "db = Some d" and "db2 = Some d2"
    and "find_one (collections d ''blooduser'')
           [(''email'', VStr (lower rt (RegisterRequest.email p)))] = None"
    and "find_one (collections d2 ''blooduser'')
           [(''email'', VStr (lower rt (RegisterRequest.email p)))]
         = Some (new_document rt salt p @ [(''_id'', VOid (next_id d))])"
proof -
  obtain d where d: "db = Some d"
    and fresh: "find_one (collections d ''blooduser'')
           [(''email'', VStr (lower rt (RegisterRequest.email p)))] = None"
    using reg by (rule register_user_success)
  have db1: "db1 = Some (snd (create_document d ''blooduser'' (new_document rt salt p)))"
    using reg by (simp add: d register_user_fresh[OF fresh])
  let ?d1 = "snd (create_document d ''blooduser'' (new_document rt salt p))"
  let ?doc = "new_document rt salt p @ [(''_id'', VOid (next_id d))]"
  have c1: "collections ?d1 ''blooduser'' = collections d ''blooduser'' @ [?doc]"
    by (simp add: create_document_blooduser)
  have "find_one [?doc] [(''email'', VStr (lower rt (RegisterRequest.email p)))] = Some ?doc"
    by (simp add: find_one_def new_document_def)
  then have f1: "find_one (collections ?d1 ''blooduser'')
                   [(''email'', VStr (lower rt (RegisterRequest.email p)))] = Some ?doc"
    by (simp add: c1 find_one_append_None[OF fresh])
  obtain d2 rest where d2: "run_registrations rt (Some ?d1) reqs = Some d2"
    "collections d2 ''blooduser'' = collections ?d1 ''blooduser'' @ rest"
    using run_registrations_prefix by blast
  have "find_one (collections d2 ''blooduser'')
          [(''email'', VStr (lower rt (RegisterRequest.email p)))] = Some ?doc"
    unfolding d2(2) using f1 by (rule find_one_append_Some)
  moreover have "db2 = Some d2" using later d2(1) by (simp add: db1)
  ultimately show ?thesis using that d fresh by blast
qed

text \<open>
  C2. After a successful registration, and any further calls of the registration handler,
  a registration request whose email equals the registered one up to case (equal after
  \<^verbatim>\<open>lower()\<close>) fails with 400 \<^verbatim>\<open>Email already registered\<close>, and the database is left
  as it was: no document is inserted.
\<close>

theorem duplicate_email_rejected:
  assumes reg: "register_user rt db salt0 p0 = (Inr r, db1)"
    and later: "run_registrations rt db1 reqs = db2"
    and same: "lower rt (RegisterRequest.email p) = lower rt (RegisterRequest.email p0)"
  shows "register_user rt db2 salt p
           = (Inl (HTTPException 400 (ascii ''Email already registered'')), db2)"
proof -
  obtain d d2 where "db = Some d" and d2: "db2 = Some d2"
    and "find_one (collections d ''blooduser'')
           [(''email'', VStr (lower rt (RegisterRequest.email p0)))] = None"
    and f: "find_one (collections d2 ''blooduser'')
           [(''email'', VStr (lower rt (RegisterRequest.email p0)))]
         = Some (new_document rt salt0 p0 @ [(''_id'', VOid (next_id d))])"
    using reg later by (rule registered_user_found)
  show ?thesis
    unfolding d2 using f by (simp add: same register_user_duplicate)
qed

lemma example_register_alice:
  "register_user example_runtime (Some (example_db [])) (ascii ''ab'') alice_payload
     = (Inr alice_registered, Some (example_db [alice_doc]))"
proof -
  have fresh: "find_one (collections (example_db []) ''blooduser'')
                 [(''email'', VStr (lower example_runtime (RegisterRequest.email alice_payload)))]
               = None"
    by (simp add: example_db_def find_one_def)
  have low: "lower example_runtime (RegisterRequest.email alice_payload) = ascii ''alice@test.com''"
    by (simp add: example_runtime_def alice_payload_def example_lower_alice)
  have doc: "new_document example_runtime (ascii ''ab'') alice_payload @ [(''_id'', VOid 0)]
               = alice_doc"
    by (simp add: new_document_def low alice_doc_def)
       (simp add: alice_payload_def example_runtime_def)
  have db: "snd (create_document (example_db []) ''blooduser''
                   (new_document example_runtime (ascii ''ab'') alice_payload))
              = example_db [alice_doc]"
    by (simp add: create_document_blooduser)
       (simp add: example_db_def fun_eq_iff doc[unfolded example_db_def, simplified])
  show ?thesis
    by (simp add: register_user_fresh[OF fresh] db low)
       (simp add: alice_registered_def create_document_blooduser example_db_def alice_payload_def)
qed

theorem duplicate_email_rejected_witness:
  "register_user example_runtime
     (run_registrations example_runtime (Some (example_db [alice_doc]))
        [(ascii ''cd'', bob_payload)])
     (ascii ''ef'') (alice_payload\<lparr>RegisterRequest.email := ascii ''ALICE@TEST.COM''\<rparr>)
   = (Inl (HTTPException 400 (ascii ''Email already registered'')),
      run_registrations example_runtime (Some (example_db [alice_doc]))
        [(ascii ''cd'', bob_payload)])"
proof -
  have same: "lower example_runtime
                (RegisterRequest.email (alice_payload\<lparr>RegisterRequest.email := ascii ''ALICE@TEST.COM''\<rparr>))
              = lower example_runtime (RegisterRequest.email alice_payload)"
    by (simp add: example_runtime_def alice_payload_def example_lower_def ascii_def)
  have later: "run_registrations example_runtime (Some (example_db [alice_doc]))
                 [(ascii ''cd'', bob_payload)]
               = run_registrations example_runtime (Some (example_db [alice_doc]))
                 [(ascii ''cd'', bob_payload)]"
    by (rule refl)
  show ?thesis
    by (rule duplicate_email_rejected[OF example_register_alice later same])
qed

text \<open>
  C1. After a successful registration (which stores an active account), and any further
  calls of the registration handler, a login with the same email after lowercasing and the
  same password succeeds with status 200, provided the hasher verifies the password
  against the hash it produced. The body carries the name, email, city and blood group of
  the registration response, and as id the string form of the identifier that
  registration returned.
\<close>

theorem login_after_register:
  assumes reg: "register_user rt db salt p = (Inr r, db1)"
    and later: "run_registrations rt db1 reqs = db2"
    and same_email: "lower rt (email q) = lower rt (RegisterRequest.email p)"
    and same_password: "password q = RegisterRequest.password p"
    and hasher: "pwd_verify rt (RegisterRequest.password p)
                   (VStr (pwd_hash rt salt (RegisterRequest.password p))) = Inr True"
  shows "\<exists>inserted_id.
           r = Obj [(''status'', Val (VStr (ascii ''success''))),
                    (''message'', Val (VStr (ascii ''Registration successful''))),
                    (''user'', Obj [(''id'', Val inserted_id),
                                    (''name'', Val (VStr (name p))),
                                    (''email'', Val (VStr (lower rt (RegisterRequest.email p)))),
                                    (''city'', Val (opt_val (city p))),
                                    (''blood_group'', Val (opt_val (blood_group p)))])]
         \<and> login_user rt db2 q
             = Inr (Obj [(''status'', Val (VStr (ascii ''success''))),
                         (''message'', Val (VStr (ascii ''Login successful''))),
                         (''user'', Obj [(''id'', Val (VStr (py_str inserted_id))),
                                         (''name'', Val (VStr (name p))),
                                         (''email'', Val (VStr (lower rt (RegisterRequest.email p)))),
                                         (''city'', Val (opt_val (city p))),
                                         (''blood_group'', Val (opt_val (blood_group p)))])])
         \<and> status_code (login_user rt db2 q) = 200"
proof -
  obtain d d2 where d: "db = Some d" and d2: "db2 = Some d2"
    and fresh: "find_one (collections d ''blooduser'')
           [(''email'', VStr (lower rt (RegisterRequest.email p)))] = None"
    and f: "find_one (collections d2 ''blooduser'')
           [(''email'', VStr (lower rt (RegisterRequest.email p)))]
         = Some (new_document rt salt p @ [(''_id'', VOid (next_id d))])"
    using reg later by (rule registered_user_found)
  let ?doc = "new_document rt salt p @ [(''_id'', VOid (next_id d))]"
  have r: "r = Obj [(''status'', Val (VStr (ascii ''success''))),
                    (''message'', Val (VStr (ascii ''Registration successful''))),
                    (''user'', Obj [(''id'', Val (VOid (next_id d))),
                                    (''name'', Val (VStr (name p))),
                                    (''email'', Val (VStr (lower rt (RegisterRequest.email p)))),
                                    (''city'', Val (opt_val (city p))),
                                    (''blood_group'', Val (opt_val (blood_group p)))])]"
    using reg by (simp add: d register_user_fresh[OF fresh] create_document_blooduser)
  have f': "find_one (collections d2 ''blooduser'') [(''email'', VStr (lower rt (email q)))]
              = Some ?doc"
    using f by (simp add: same_email)
  have fields:
    "dict_get ?doc ''password_hash'' (VStr []) = VStr (pwd_hash rt salt (RegisterRequest.password p))"
    "dict_get ?doc ''is_active'' (VBool True) = VBool True"
    "dict_get ?doc ''_id'' VNone = VOid (next_id d)"
    "dict_get ?doc ''name'' VNone = VStr (name p)"
    "dict_get ?doc ''email'' VNone = VStr (lower rt (RegisterRequest.email p))"
    "dict_get ?doc ''city'' VNone = opt_val (city p)"
    "dict_get ?doc ''blood_group'' VNone = opt_val (blood_group p)"
    by (simp_all add: new_document_def dict_get_def)
  have l: "login_user rt db2 q
             = Inr (Obj [(''status'', Val (VStr (ascii ''success''))),
                         (''message'', Val (VStr (ascii ''Login successful''))),
                         (''user'', Obj [(''id'', Val (VStr (py_str (VOid (next_id d))))),
                                         (''name'', Val (VStr (name p))),
                                         (''email'', Val (VStr (lower rt (RegisterRequest.email p)))),
                                         (''city'', Val (opt_val (city p))),
                                         (''blood_group'', Val (opt_val (blood_group p)))])])"
    unfolding d2 login_user_found[OF f'] fields same_password
    by (simp add: hasher)
  show ?thesis
    using r l by simp
qed

lemma oid_str_0: "oid_str 0 = ascii ''000000000000000000000000''"
proof -
  have unfold: "0 < k \<Longrightarrow> hex_digits k n = hex_digits (k - 1) (n div 16) @ [hex_digit (n mod 16)]"
    for k n by (cases k) simp_all
  show ?thesis
    by (simp add: oid_str_def hex_digit_def ascii_def unfold)
qed

theorem login_after_register_witness:
  "login_user example_runtime
     (run_registrations example_runtime (Some (example_db [alice_doc]))
        [(ascii ''cd'', bob_payload)])
     \<lparr>email = ascii ''alice@TEST.com'', password = ascii ''secret1''\<rparr>
   = Inr (Obj [(''status'', Val (VStr (ascii ''success''))),
               (''message'', Val (VStr (ascii ''Login successful''))),
               (''user'', Obj [(''id'', Val (VStr (ascii ''000000000000000000000000''))),
                               (''name'', Val (VStr (ascii ''Alice''))),
                               (''email'', Val (VStr (ascii ''alice@test.com''))),
                               (''city'', Val VNone),
                               (''blood_group'', Val VNone)])])"
proof -
  have same: "lower example_runtime
                (email \<lparr>email = ascii ''alice@TEST.com'', password = ascii ''secret1''\<rparr>)
              = lower example_runtime (RegisterRequest.email alice_payload)"
    by (simp add: example_runtime_def alice_payload_def example_lower_def ascii_def)
  have pw: "password \<lparr>email = ascii ''alice@TEST.com'', password = ascii ''secret1''\<rparr>
              = RegisterRequest.password alice_payload"
    by (simp add: alice_payload_def)
  have hasher: "pwd_verify example_runtime (RegisterRequest.password alice_payload)
                  (VStr (pwd_hash example_runtime (ascii ''ab'')
                           (RegisterRequest.password alice_payload))) = Inr True"
    by (simp add: example_runtime_def alice_payload_def example_verify_alice)
  have low: "lower example_runtime (RegisterRequest.email alice_payload) = ascii ''alice@test.com''"
    by (simp add: example_runtime_def alice_payload_def example_lower_alice)
  have later: "run_registrations example_runtime (Some (example_db [alice_doc]))
                 [(ascii ''cd'', bob_payload)]
               = run_registrations example_runtime (Some (example_db [alice_doc]))
                 [(ascii ''cd'', bob_payload)]"
    by (rule refl)
  have p: "name alice_payload = ascii ''Alice''" "opt_val (city alice_payload) = VNone"
    "opt_val (blood_group alice_payload) = VNone"
    by (simp_all add: alice_payload_def)
  show ?thesis
    using login_after_register[OF example_register_alice later same pw hasher]
    unfolding low p alice_registered_def
    by (simp add: oid_str_0 del: run_registrations.simps)
qed

text \<open>
  C7. A successful registration returns a user object with exactly the fields id, name,
  email, city and blood_group, where email is the lowercased form of the submitted email;
  it has no field phone or role. The document stored has role \<^verbatim>\<open>user\<close> and is_active
  true.
\<close>

theorem register_response_shape:
  assumes reg: "register_user rt db salt p = (Inr r, db1)"
  shows "\<exists>d d1 inserted_id stored.
           db = Some d \<and> db1 = Some d1
         \<and> r = Obj [(''status'', Val (VStr (ascii ''success''))),
                    (''message'', Val (VStr (ascii ''Registration successful''))),
                    (''user'', Obj [(''id'', Val inserted_id),
                                    (''name'', Val (VStr (name p))),
                                    (''email'', Val (VStr (lower rt (RegisterRequest.email p)))),
                                    (''city'', Val (opt_val (city p))),
                                    (''blood_group'', Val (opt_val (blood_group p)))])]
         \<and> field_names r = [''status'', ''message'', ''user'',
                             ''id'', ''name'', ''email'', ''city'', ''blood_group'']
         \<and> user_field r ''phone'' = None \<and> user_field r ''role'' = None
         \<and> collections d1 ''blooduser'' = collections d ''blooduser'' @ [stored]
         \<and> map_of stored ''role'' = Some (VStr (ascii ''user''))
         \<and> map_of stored ''is_active'' = Some (VBool True)"
proof -
  obtain d where d: "db = Some d"
    and fresh: "find_one (collections d ''blooduser'')
           [(''email'', VStr (lower rt (RegisterRequest.email p)))] = None"
    using reg by (rule register_user_success)
  let ?doc = "new_document rt salt p @ [(''_id'', VOid (next_id d))]"
  let ?d1 = "snd (create_document d ''blooduser'' (new_document rt salt p))"
  have r: "r = Obj [(''status'', Val (VStr (ascii ''success''))),
                    (''message'', Val (VStr (ascii ''Registration successful''))),
                    (''user'', Obj [(''id'', Val (VOid (next_id d))),
                                    (''name'', Val (VStr (name p))),
                                    (''email'', Val (VStr (lower rt (RegisterRequest.email p)))),
                                    (''city'', Val (opt_val (city p))),
                                    (''blood_group'', Val (opt_val (blood_group p)))])]"
    and db1: "db1 = Some ?d1"
    using reg by (simp_all add: d register_user_fresh[OF fresh] create_document_blooduser)
  have c: "collections ?d1 ''blooduser'' = collections d ''blooduser'' @ [?doc]"
    by (simp add: create_document_blooduser)
  have s: "map_of ?doc ''role'' = Some (VStr (ascii ''user''))"
    "map_of ?doc ''is_active'' = Some (VBool True)"
    by (simp_all add: new_document_def)
  have n: "field_names r = [''status'', ''message'', ''user'',
                             ''id'', ''name'', ''email'', ''city'', ''blood_group'']"
    "user_field r ''phone'' = None" "user_field r ''role'' = None"
    by (simp_all add: r user_field_def)
  show ?thesis
    using d db1 r n c s by blast
qed

theorem register_response_shape_witness:
  "\<exists>d d1 inserted_id stored.
      Some (example_db []) = Some d \<and> Some (example_db [alice_doc]) = Some d1
    \<and> alice_registered
        = Obj [(''status'', Val (VStr (ascii ''success''))),
               (''message'', Val (VStr (ascii ''Registration successful''))),
               (''user'', Obj [(''id'', Val inserted_id),
                               (''name'', Val (VStr (ascii ''Alice''))),
                               (''email'', Val (VStr (ascii ''alice@test.com''))),
                               (''city'', Val VNone),
                               (''blood_group'', Val VNone)])]
    \<and> collections d1 ''blooduser'' = collections d ''blooduser'' @ [stored]
    \<and> map_of stored ''role'' = Some (VStr (ascii ''user''))
    \<and> map_of stored ''is_active'' = Some (VBool True)"
proof -
  have low: "lower example_runtime (RegisterRequest.email alice_payload) = ascii ''alice@test.com''"
    by (simp add: example_runtime_def alice_payload_def example_lower_alice)
  have p: "name alice_payload = ascii ''Alice''" "opt_val (city alice_payload) = VNone"
    "opt_val (blood_group alice_payload) = VNone"
    by (simp_all add: alice_payload_def)
  show ?thesis
    using register_response_shape[OF example_register_alice]
    unfolding low p by blast
qed

text \<open>
  C10. The id of a successful registration response is the value \<^verbatim>\<open>create_document\<close>
  returned, unchanged. The id of a successful login response is \<^verbatim>\<open>str\<close> of the field
  \<^verbatim>\<open>_id\<close> of the stored document. For the same user the two differ in form: the
  identifier itself against its string.
\<close>

theorem id_forms_differ:
  assumes reg: "register_user rt db salt p = (Inr r, db1)"
    and later: "run_registrations rt db1 reqs = db2"
    and same_email: "lower rt (email q) = lower rt (RegisterRequest.email p)"
    and login: "login_user rt db2 q = Inr r'"
  shows "\<exists>d d2 u.
           db = Some d \<and> db2 = Some d2
         \<and> user_field r ''id''
             = Some (Val (fst (create_document d ''blooduser'' (new_document rt salt p))))
         \<and> find_one (collections d2 ''blooduser'') [(''email'', VStr (lower rt (email q)))]
             = Some u
         \<and> dict_get u ''_id'' VNone
             = fst (create_document d ''blooduser'' (new_document rt salt p))
         \<and> user_field r' ''id'' = Some (Val (VStr (py_str (dict_get u ''_id'' VNone))))
         \<and> user_field r ''id'' \<noteq> user_field r' ''id''"
proof -
  obtain d d2 where d: "db = Some d" and d2: "db2 = Some d2"
    and fresh: "find_one (collections d ''blooduser'')
           [(''email'', VStr (lower rt (RegisterRequest.email p)))] = None"
    and f: "find_one (collections d2 ''blooduser'')
           [(''email'', VStr (lower rt (RegisterRequest.email p)))]
         = Some (new_document rt salt p @ [(''_id'', VOid (next_id d))])"
    using reg later by (rule registered_user_found)
  let ?doc = "new_document rt salt p @ [(''_id'', VOid (next_id d))]"
  have f': "find_one (collections d2 ''blooduser'') [(''email'', VStr (lower rt (email q)))]
              = Some ?doc"
    using f by (simp add: same_email)
  have r: "user_field r ''id''
             = Some (Val (fst (create_document d ''blooduser'' (new_document rt salt p))))"
    using reg by (auto simp: d register_user_fresh[OF fresh] user_field_def)
  have i: "dict_get ?doc ''_id'' VNone
             = fst (create_document d ''blooduser'' (new_document rt salt p))"
    by (simp add: fst_create_document new_document_def dict_get_def)
  have r': "user_field r' ''id'' = Some (Val (VStr (py_str (dict_get ?doc ''_id'' VNone))))"
    using login unfolding d2 login_user_found[OF f']
    by (auto simp: user_field_def split: sum.splits if_splits)
  have ne: "user_field r ''id'' \<noteq> user_field r' ''id''"
    unfolding r r' i by (simp add: fst_create_document)
  show ?thesis
    using d d2 r f' i r' ne by blast
qed

theorem id_forms_differ_witness:
  "user_field alice_registered ''id'' = Some (Val (VOid 0))
   \<and> user_field (Obj [(''status'', Val (VStr (ascii ''success''))),
               (''message'', Val (VStr (ascii ''Login successful''))),
               (''user'', Obj [(''id'', Val (VStr (ascii ''000000000000000000000000''))),
                               (''name'', Val (VStr (ascii ''Alice''))),
                               (''email'', Val (VStr (ascii ''alice@test.com''))),
                               (''city'', Val VNone),
                               (''blood_group'', Val VNone)])]) ''id''
       = Some (Val (VStr (ascii ''000000000000000000000000'')))
   \<and> user_field alice_registered ''id''
       \<noteq> user_field (Obj [(''status'', Val (VStr (ascii ''success''))),
               (''message'', Val (VStr (ascii ''Login successful''))),
               (''user'', Obj [(''id'', Val (VStr (ascii ''000000000000000000000000''))),
                               (''name'', Val (VStr (ascii ''Alice''))),
                               (''email'', Val (VStr (ascii ''alice@test.com''))),
                               (''city'', Val VNone),
                               (''blood_group'', Val VNone)])]) ''id''"
proof -
  let ?q = "\<lparr>email = ascii ''alice@test.com'', password = ascii ''secret1''\<rparr>"
  let ?r' = "Obj [(''status'', Val (VStr (ascii ''success''))),
               (''message'', Val (VStr (ascii ''Login successful''))),
               (''user'', Obj [(''id'', Val (VStr (ascii ''000000000000000000000000''))),
                               (''name'', Val (VStr (ascii ''Alice''))),
                               (''email'', Val (VStr (ascii ''alice@test.com''))),
                               (''city'', Val VNone),
                               (''blood_group'', Val VNone)])]"
  have later: "run_registrations example_runtime (Some (example_db [alice_doc])) []
                 = Some (example_db [alice_doc])"
    by simp
  have same: "lower example_runtime (email ?q)
                = lower example_runtime (RegisterRequest.email alice_payload)"
    by (simp add: example_runtime_def alice_payload_def example_lower_def ascii_def)
  have fnd: "find_one (collections (example_db [alice_doc]) ''blooduser'')
               [(''email'', VStr (lower example_runtime (email ?q)))] = Some alice_doc"
    unfolding same
    by (simp add: example_runtime_def alice_payload_def example_lower_alice example_db_def
        find_one_def alice_doc_def)
  have flds:
    "dict_get alice_doc ''password_hash'' (VStr [])
       = VStr (example_hash (ascii ''ab'') (ascii ''secret1''))"
    "dict_get alice_doc ''is_active'' (VBool True) = VBool True"
    "dict_get alice_doc ''_id'' VNone = VOid 0"
    "dict_get alice_doc ''name'' VNone = VStr (ascii ''Alice'')"
    "dict_get alice_doc ''email'' VNone = VStr (ascii ''alice@test.com'')"
    "dict_get alice_doc ''city'' VNone = VNone"
    "dict_get alice_doc ''blood_group'' VNone = VNone"
    by (simp_all add: alice_doc_def dict_get_def)
  have login: "login_user example_runtime (Some (example_db [alice_doc])) ?q = Inr ?r'"
    unfolding login_user_found[OF fnd] flds
    by (simp add: example_runtime_def example_verify_alice oid_str_0)
  show ?thesis
    using id_forms_differ[OF example_register_alice later same login]
    by (simp add: user_field_def alice_registered_def fst_create_document example_db_def)
qed

section \<open>Password hashes stay out of responses\<close>

lemma map_of_redact: "k \<noteq> ''password_hash'' \<Longrightarrow> map_of (redact u) k = map_of u k"
  by (simp add: redact_def delete_conv')

lemma dict_get_redact:
  "k \<noteq> ''password_hash'' \<Longrightarrow> dict_get (redact u) k dflt = dict_get u k dflt"
  by (simp add: dict_get_def map_of_redact)

lemma find_one_redact:
  "k \<noteq> ''password_hash'' \<Longrightarrow>
     find_one (map redact docs) [(k, v)] = map_option redact (find_one docs [(k, v)])"
  unfolding find_one_def by (induction docs) (simp_all add: map_of_redact)

lemma redact_db_eqD:
  assumes "redact_db d = redact_db d'"
  shows "map redact (collections d c) = map redact (collections d' c)"
    and "next_id d = next_id d'"
    and "name_attr d = name_attr d'"
    and "list_collection_names d = list_collection_names d'"
proof -
  have "collections (redact_db d) c = collections (redact_db d') c"
    using assms by simp
  then show "map redact (collections d c) = map redact (collections d' c)"
    by (simp add: redact_db_def)
  have "next_id (redact_db d) = next_id (redact_db d')"
    "name_attr (redact_db d) = name_attr (redact_db d')"
    "list_collection_names (redact_db d) = list_collection_names (redact_db d')"
    using assms by simp_all
  then show "next_id d = next_id d'" "name_attr d = name_attr d'"
    "list_collection_names d = list_collection_names d'"
    by (simp_all add: redact_db_def)
qed

lemma test_database_frame:
  assumes "map_option redact_db db = map_option redact_db db'"
  shows "test_database db url = test_database db' url"
proof (cases db)
  case None
  then have "db' = None" using assms by simp
  then show ?thesis using None by simp
next
  case (Some d)
  then obtain d' where d': "db' = Some d'" and eq: "redact_db d = redact_db d'"
    using assms by (cases db') auto
  show ?thesis
    unfolding Some d' test_database_def
    by (simp add: redact_db_eqD(3,4)[OF eq])
qed

lemma login_user_frame:
  assumes same: "map_option redact_db db = map_option redact_db db'"
    and email: "lower rt (email q) = lower rt' (email q')"
    and ok: "login_user rt db q = Inr r"
    and ok': "login_user rt' db' q' = Inr r'"
  shows "r = r'"
proof -
  obtain d where d: "db = Some d"
    using ok by (cases db) (simp_all add: login_user_def)
  obtain d' where d': "db' = Some d'"
    using ok' by (cases db') (simp_all add: login_user_def)
  have eq: "redact_db d = redact_db d'"
    using same by (simp add: d d')
  let ?flt = "[(''email'', VStr (lower rt (email q)))]"
  obtain u where u: "find_one (collections d ''blooduser'') ?flt = Some u"
    using ok unfolding d
    by (cases "find_one (collections d ''blooduser'') ?flt") (simp_all add: login_user_not_found)
  obtain u' where u': "find_one (collections d' ''blooduser'')
                         [(''email'', VStr (lower rt' (email q')))] = Some u'"
    using ok' unfolding d'
    by (cases "find_one (collections d' ''blooduser'') [(''email'', VStr (lower rt' (email q')))]")
       (simp_all add: login_user_not_found)
  have "map_option redact (find_one (collections d ''blooduser'') ?flt)
          = map_option redact (find_one (collections d' ''blooduser'') ?flt)"
    using redact_db_eqD(1)[OF eq, of "''blooduser''"]
    by (simp add: find_one_redact[symmetric])
  then have ru: "redact u = redact u'"
    using u u' by (simp add: email)
  have get: "dict_get u k dflt = dict_get u' k dflt" if "k \<noteq> ''password_hash''" for k dflt
    using ru dict_get_redact[OF that, of u dflt] dict_get_redact[OF that, of u' dflt] by simp
  have "Inr r = Inr r'"
    using ok ok' unfolding d d' login_user_found[OF u] login_user_found[OF u']
    by (auto simp: get split: sum.splits if_splits)
  then show ?thesis by simp
qed

lemma register_user_frame:
  assumes same: "map_option redact_db db = map_option redact_db db'"
    and email: "lower rt (RegisterRequest.email p) = lower rt' (RegisterRequest.email p')"
    and pub: "name p = name p'" "city p = city p'" "blood_group p = blood_group p'"
    and ok: "fst (register_user rt db salt p) = Inr r"
    and ok': "fst (register_user rt' db' salt' p') = Inr r'"
  shows "r = r'"
proof -
  obtain db1 where reg: "register_user rt db salt p = (Inr r, db1)"
    using ok by (cases "register_user rt db salt p") simp
  obtain db1' where reg': "register_user rt' db' salt' p' = (Inr r', db1')"
    using ok' by (cases "register_user rt' db' salt' p'") simp
  obtain d where d: "db = Some d"
    and fresh: "find_one (collections d ''blooduser'')
           [(''email'', VStr (lower rt (RegisterRequest.email p)))] = None"
    using reg by (rule register_user_success)
  obtain d' where d': "db' = Some d'"
    and fresh': "find_one (collections d' ''blooduser'')
           [(''email'', VStr (lower rt' (RegisterRequest.email p')))] = None"
    using reg' by (rule register_user_success)
  have eq: "redact_db d = redact_db d'"
    using same by (simp add: d d')
  show ?thesis
    using reg reg' unfolding d d' register_user_fresh[OF fresh] register_user_fresh[OF fresh']
    by (simp add: fst_create_document redact_db_eqD(2)[OF eq] email pub)
qed

lemma field_names_values: "concat (map field_names (map (\<lambda>c. Val (VStr c)) xs)) = []"
  by (induction xs) simp_all

lemma test_database_fields:
  assumes "test_database db url = Inr b"
  shows "field_names b = [''backend'', ''database'', ''database_url'', ''database_name'',
                          ''connection_status'', ''collections'']"
proof (cases db)
  case None
  then show ?thesis
    using assms
    by (auto simp: test_database_def setitem_def seq_def try_except_def text_val_def)
next
  case (Some d)
  show ?thesis
  proof (cases "name_attr d")
    case (Inl e)
    then show ?thesis
      using Some assms
      by (auto simp: test_database_def setitem_def seq_def try_except_def text_val_def)
  next
    case (Inr n)
    show ?thesis
    proof (cases "list_collection_names d")
      case (Inl e)
      then show ?thesis
        using Some Inr assms
        by (cases n) (auto simp: test_database_def setitem_def seq_def try_except_def text_val_def)
    next
      case names: (Inr names)
      then show ?thesis
        using Some Inr assms
        by (cases n)
           (auto simp: test_database_def setitem_def seq_def try_except_def text_val_def
                       field_names_values)
    qed
  qed
qed

lemma login_user_fields:
  assumes "login_user rt db q = Inr b"
  shows "field_names b = [''status'', ''message'', ''user'',
                          ''id'', ''name'', ''email'', ''city'', ''blood_group'']"
proof -
  obtain d where d: "db = Some d"
    using assms by (cases db) (simp_all add: login_user_def)
  obtain u where u: "find_one (collections d ''blooduser'')
                       [(''email'', VStr (lower rt (email q)))] = Some u"
    using assms unfolding d
    by (cases "find_one (collections d ''blooduser'') [(''email'', VStr (lower rt (email q)))]")
       (simp_all add: login_user_not_found)
  show ?thesis
    using assms unfolding d login_user_found[OF u]
    by (auto split: sum.splits if_splits)
qed

lemma register_user_fields:
  assumes "fst (register_user rt db salt p) = Inr b"
  shows "field_names b = [''status'', ''message'', ''user'',
                          ''id'', ''name'', ''email'', ''city'', ''blood_group'']"
proof -
  obtain db1 where reg: "register_user rt db salt p = (Inr b, db1)"
    using assms by (cases "register_user rt db salt p") simp
  obtain d where d: "db = Some d"
    and fresh: "find_one (collections d ''blooduser'')
           [(''email'', VStr (lower rt (RegisterRequest.email p)))] = None"
    using reg by (rule register_user_success)
  show ?thesis
    using reg unfolding d register_user_fresh[OF fresh] by auto
qed

lemma read_root_fields: "read_root = Inr b \<Longrightarrow> field_names b = [''message'']"
  by (auto simp: read_root_def)

lemma login_user_details:
  assumes "login_user rt db q = Inl (HTTPException code detail)"
  shows "detail \<in> {ascii ''Database not configured'', ascii ''Invalid email or password'',
                    ascii ''Account is inactive''}"
proof (cases db)
  case None
  then show ?thesis using assms by (auto simp: login_user_def)
next
  case (Some d)
  show ?thesis
  proof (cases "find_one (collections d ''blooduser'') [(''email'', VStr (lower rt (email q)))]")
    case None
    then show ?thesis using assms Some by (auto simp: login_user_not_found)
  next
    case u: (Some u)
    show ?thesis
      using assms unfolding Some login_user_found[OF u]
      by (auto split: sum.splits if_splits)
  qed
qed

lemma register_user_details:
  assumes "fst (register_user rt db salt p) = Inl (HTTPException code detail)"
  shows "detail \<in> {ascii ''Database not configured'', ascii ''Email already registered''}"
proof (cases db)
  case None
  then show ?thesis using assms by (auto simp: register_user_None)
next
  case (Some d)
  show ?thesis
  proof (cases "find_one (collections d ''blooduser'')
                  [(''email'', VStr (lower rt (RegisterRequest.email p)))]")
    case None
    then show ?thesis using assms Some by (auto simp: register_user_fresh)
  next
    case u: (Some u)
    then show ?thesis using assms Some by (auto simp: register_user_duplicate)
  qed
qed

text \<open>
  C6. No response carries a stored password hash. No body that an endpoint returns has a
  field \<^verbatim>\<open>password_hash\<close> at any depth, and every \<^verbatim>\<open>HTTPException\<close> carries one of four
  fixed details. Nothing in a body is computed from a hash: take two databases that are
  equal once the field \<^verbatim>\<open>password_hash\<close> is removed from every document, any two hashers,
  salts and passwords, and requests with the same lowercased email and the same name, city
  and blood group; then \<^verbatim>\<open>/test\<close> answers the same on both, and whenever login (or
  registration) succeeds on both, the two bodies are equal.
\<close>

theorem password_hash_not_in_responses:
  assumes same: "map_option redact_db db = map_option redact_db db'"
    and login_email: "lower rt (email q) = lower rt' (email q')"
    and reg_email: "lower rt (RegisterRequest.email p) = lower rt' (RegisterRequest.email p')"
    and reg_public: "name p = name p'" "city p = city p'" "blood_group p = blood_group p'"
  shows "(\<forall>b. read_root = Inr b \<or> test_database db url = Inr b
              \<or> fst (register_user rt db salt p) = Inr b \<or> login_user rt db q = Inr b
            \<longrightarrow> ''password_hash'' \<notin> set (field_names b))
       \<and> (\<forall>code detail.
              fst (register_user rt db salt p) = Inl (HTTPException code detail)
              \<or> login_user rt db q = Inl (HTTPException code detail)
            \<longrightarrow> detail \<in> {ascii ''Database not configured'', ascii ''Email already registered'',
                            ascii ''Invalid email or password'', ascii ''Account is inactive''})
       \<and> test_database db url = test_database db' url
       \<and> (\<forall>r r'. login_user rt db q = Inr r \<and> login_user rt' db' q' = Inr r' \<longrightarrow> r = r')
       \<and> (\<forall>r r'. fst (register_user rt db salt p) = Inr r
                  \<and> fst (register_user rt' db' salt' p') = Inr r' \<longrightarrow> r = r')"
proof -
  have fields: "''password_hash'' \<notin> set (field_names b)"
    if "read_root = Inr b \<or> test_database db url = Inr b
        \<or> fst (register_user rt db salt p) = Inr b \<or> login_user rt db q = Inr b" for b
    using that read_root_fields[of b] test_database_fields[of db url b]
      register_user_fields[of rt db salt p b] login_user_fields[of rt db q b]
    by auto
  have details: "detail \<in> {ascii ''Database not configured'', ascii ''Email already registered'',
                            ascii ''Invalid email or password'', ascii ''Account is inactive''}"
    if "fst (register_user rt db salt p) = Inl (HTTPException code detail)
        \<or> login_user rt db q = Inl (HTTPException code detail)" for code detail
    using that register_user_details[of rt db salt p code detail]
      login_user_details[of rt db q code detail]
    by auto
  have t: "test_database db url = test_database db' url"
    using same by (rule test_database_frame)
  have l: "r = r'" if "login_user rt db q = Inr r \<and> login_user rt' db' q' = Inr r'" for r r'
    using login_user_frame[OF same login_email] that by blast
  have g: "r = r'" if "fst (register_user rt db salt p) = Inr r
                  \<and> fst (register_user rt' db' salt' p') = Inr r'" for r r'
    using register_user_frame[OF same reg_email reg_public] that by blast
  show ?thesis
    using fields details t l g by blast
qed

lemma example_same_public:
  "map_option redact_db (Some (example_db [alice_doc]))
     = map_option redact_db (Some (example_db [other_hash_doc]))"
  by (simp add: redact_db_def example_db_def redact_def alice_doc_def other_hash_doc_def
      fun_eq_iff)

lemma example_login_succeeds:
  assumes doc: "map_of u ''email'' = Some (VStr (ascii ''alice@test.com''))"
    and h: "dict_get u ''password_hash'' (VStr []) = VStr (example_hash salt pw)"
    and rest: "dict_get u ''is_active'' (VBool True) = VBool True"
      "dict_get u ''_id'' VNone = VOid 0"
      "dict_get u ''name'' VNone = VStr (ascii ''Alice'')"
      "dict_get u ''email'' VNone = VStr (ascii ''alice@test.com'')"
      "dict_get u ''city'' VNone = VNone"
      "dict_get u ''blood_group'' VNone = VNone"
  shows "login_user example_runtime (Some (example_db [u])) (alice_login pw)
           = Inr (Obj [(''status'', Val (VStr (ascii ''success''))),
                       (''message'', Val (VStr (ascii ''Login successful''))),
                       (''user'', Obj [(''id'', Val (VStr (oid_str 0))),
                                       (''name'', Val (VStr (ascii ''Alice''))),
                                       (''email'', Val (VStr (ascii ''alice@test.com''))),
                                       (''city'', Val VNone),
                                       (''blood_group'', Val VNone)])])"
proof -
  have f: "find_one (collections (example_db [u]) ''blooduser'')
             [(''email'', VStr (lower example_runtime (email (alice_login pw))))] = Some u"
    by (simp add: alice_login_lower example_db_def find_one_def doc)
  have v: "pwd_verify example_runtime (password (alice_login pw)) (VStr (example_hash salt pw))
             = Inr True"
    by (simp add: example_runtime_def alice_login_def example_verify_def example_hash_def ascii_def)
  show ?thesis
    unfolding login_user_found[OF f] h rest by (simp add: v)
qed

theorem password_hash_not_in_responses_witness:
  "login_user example_runtime (Some (example_db [alice_doc])) (alice_login (ascii ''secret1''))
     = login_user example_runtime (Some (example_db [other_hash_doc]))
         (alice_login (ascii ''other99''))
   \<and> test_database (Some (example_db [alice_doc])) None
     = test_database (Some (example_db [other_hash_doc])) None
   \<and> ''password_hash'' \<notin> set (field_names alice_registered)"
proof -
  let ?r = "Obj [(''status'', Val (VStr (ascii ''success''))),
                 (''message'', Val (VStr (ascii ''Login successful''))),
                 (''user'', Obj [(''id'', Val (VStr (oid_str 0))),
                                 (''name'', Val (VStr (ascii ''Alice''))),
                                 (''email'', Val (VStr (ascii ''alice@test.com''))),
                                 (''city'', Val VNone),
                                 (''blood_group'', Val VNone)])]"
  have l1: "login_user example_runtime (Some (example_db [alice_doc]))
              (alice_login (ascii ''secret1'')) = Inr ?r"
    by (rule example_login_succeeds[where salt = "ascii ''ab''"])
       (simp_all add: alice_doc_def dict_get_def)
  have l2: "login_user example_runtime (Some (example_db [other_hash_doc]))
              (alice_login (ascii ''other99'')) = Inr ?r"
    by (rule example_login_succeeds[where salt = "ascii ''zz''"])
       (simp_all add: other_hash_doc_def alice_doc_def dict_get_def)
  have e: "lower example_runtime (email (alice_login (ascii ''secret1'')))
             = lower example_runtime (email (alice_login (ascii ''other99'')))"
    by (simp add: alice_login_def)
  have r: "fst (register_user example_runtime (Some (example_db [])) (ascii ''ab'') alice_payload)
             = Inr alice_registered"
    by (simp add: example_register_alice)
  have t1: "test_database (Some (example_db [alice_doc])) None
              = test_database (Some (example_db [other_hash_doc])) None"
    using password_hash_not_in_responses[OF example_same_public e refl refl refl refl]
    by blast
  have t2: "''password_hash'' \<notin> set (field_names alice_registered)"
    using password_hash_not_in_responses
            [OF refl refl refl refl refl refl,
             where db = "Some (example_db [])" and rt = example_runtime
               and salt = "ascii ''ab''" and p = alice_payload] r
    by blast
  show ?thesis
    using l1 l2 t1 t2 by simp
qed

section \<open>The diagnostic endpoint\<close>

text \<open>
  C8. \<^verbatim>\<open>GET /test\<close> never fails: for every database handle and environment it returns a
  body (status 200). An exception raised while the handle is read is caught: its string,
  cut to 50 characters, is put after a fixed prefix into the field \<^verbatim>\<open>database\<close>. The field
  \<^verbatim>\<open>collections\<close> holds the first 10 collection names when the listing succeeded and is
  empty otherwise.
\<close>

theorem test_database_never_fails:
  "\<exists>response.
      test_database db database_url = Inr (Obj response)
    \<and> status_code (test_database db database_url) = 200
    \<and> map_of response ''database'' =
        Some (Val (VStr
          (case db of
             None \<Rightarrow> warning_sign @ ascii '' Available but not initialized''
           | Some d \<Rightarrow>
               (case name_attr d of
                  Inl e \<Rightarrow> cross_mark @ ascii '' Error: '' @ take 50 e
                | Inr n \<Rightarrow>
                    (case list_collection_names d of
                       Inl e \<Rightarrow> warning_sign @ ascii '' Connected but Error: '' @ take 50 e
                     | Inr names \<Rightarrow> check_mark @ ascii '' Connected & Working'')))))
    \<and> map_of response ''collections'' =
        Some (Arr (map (\<lambda>c. Val (VStr c))
          (case db of
             None \<Rightarrow> []
           | Some d \<Rightarrow>
               (case name_attr d of
                  Inl e \<Rightarrow> []
                | Inr n \<Rightarrow>
                    (case list_collection_names d of
                       Inl e \<Rightarrow> []
                     | Inr names \<Rightarrow> take 10 names)))))"
proof (cases db)
  case None
  then show ?thesis
    by (simp add: test_database_def setitem_def seq_def try_except_def text_val_def)
next
  case (Some d)
  show ?thesis
  proof (cases "name_attr d")
    case (Inl e)
    then show ?thesis
      using Some
      by (simp add: test_database_def setitem_def seq_def try_except_def text_val_def)
  next
    case (Inr n)
    show ?thesis
    proof (cases "list_collection_names d")
      case (Inl e)
      then show ?thesis
        using Some Inr
        by (cases n) (simp_all add: test_database_def setitem_def seq_def try_except_def text_val_def)
    next
      case names: (Inr names)
      then show ?thesis
        using Some Inr
        by (cases n) (simp_all add: test_database_def setitem_def seq_def try_except_def text_val_def)
    qed
  qed
qed

theorem test_database_never_fails_witness:
  "(\<exists>response.
      test_database (Some failing_db) None = Inr (Obj response)
    \<and> map_of response ''database'' =
        Some (Val (VStr (warning_sign @ ascii '' Connected but Error: '' @ replicate 50 120)))
    \<and> map_of response ''collections'' = Some (Arr []))
   \<and> (\<exists>response.
      test_database (Some ((example_db [])\<lparr>list_collection_names := Inr many_names\<rparr>)) None
        = Inr (Obj response)
    \<and> map_of response ''collections'' =
        Some (Arr (map (\<lambda>c. Val (VStr c)) [[97], [98], [99], [100], [101], [102], [103], [104], [105], [106]])))"
proof -
  have n: "take 10 many_names = [[97], [98], [99], [100], [101], [102], [103], [104], [105], [106]]"
    by (simp add: many_names_def upt_conv_Cons)
  have a: "name_attr failing_db = Inr (Some (ascii ''bloodbank''))"
    "list_collection_names failing_db = Inl (replicate 60 120)"
    by (simp_all add: failing_db_def example_db_def)
  have b: "name_attr ((example_db [])\<lparr>list_collection_names := Inr many_names\<rparr>)
             = Inr (Some (ascii ''bloodbank''))"
    "list_collection_names ((example_db [])\<lparr>list_collection_names := Inr many_names\<rparr>)
             = Inr many_names"
    by (simp_all add: example_db_def)
  have t: "take 50 (replicate 60 (120::nat)) = replicate 50 120"
    by simp
  have A: "\<exists>response.
      test_database (Some failing_db) None = Inr (Obj response)
    \<and> map_of response ''database'' =
        Some (Val (VStr (warning_sign @ ascii '' Connected but Error: '' @ replicate 50 120)))
    \<and> map_of response ''collections'' = Some (Arr [])"
    using test_database_never_fails[of "Some failing_db" None]
    unfolding option.case a sum.case t by auto
  have B: "\<exists>response.
      test_database (Some ((example_db [])\<lparr>list_collection_names := Inr many_names\<rparr>)) None
        = Inr (Obj response)
    \<and> map_of response ''collections'' =
        Some (Arr (map (\<lambda>c. Val (VStr c)) [[97], [98], [99], [100], [101], [102], [103], [104], [105], [106]]))"
    using test_database_never_fails
        [of "Some ((example_db [])\<lparr>list_collection_names := Inr many_names\<rparr>)" None]
    unfolding option.case b sum.case n by auto
  show ?thesis
    using A B by (rule conjI)
qed

end
